theory Spec2Isabelle
  imports Complex_Main "HOL-Library.Word" "HOL-Library.Char_ord" "HOL-Library.List_Lexorder"
begin

unbundle bit_operations_syntax

section \<open>Python values used throughout\<close>

text \<open>
  A value of Python's \<open>Optional[str]\<close> is a \<open>string option\<close>. Python's \<open>a or b\<close> returns
  \<open>a\<close> when \<open>a\<close> is truthy and \<open>b\<close> otherwise; \<open>None\<close> and the empty string are falsy.
  \<open>d.get(k)\<close> on a dictionary whose values are \<open>Optional[str]\<close> returns \<open>None\<close> both for
  a missing key and for a key stored with \<open>None\<close>.
\<close>

definition truthy :: "string option \<Rightarrow> bool" where
  "truthy v = (case v of None \<Rightarrow> False | Some s \<Rightarrow> s \<noteq> [])"

definition py_or :: "string option \<Rightarrow> string option \<Rightarrow> string option" where
  "py_or a b = (if truthy a then a else b)"

type_synonym strdict = "string \<rightharpoonup> string option"

definition dict_get :: "strdict \<Rightarrow> string \<Rightarrow> string option" where
  "dict_get d k = (case d k of None \<Rightarrow> None | Some v \<Rightarrow> v)"

section \<open>store/models.py: Threat\<close>

text \<open>
  \<open>uuid.uuid4().hex\<close> is the integer value of the UUID (\<open>UUID.int\<close>, below \<open>2 ^ 128\<close>)
  written as 32 lower-case hexadecimal digits, most significant first. The UUID itself is
  drawn at random, so its integer value is an input of the model.
\<close>

definition hexdigits :: string where
  "hexdigits = ''0123456789abcdef''"

definition hex_char :: "nat \<Rightarrow> char" where
  "hex_char k = hexdigits ! (k mod 16)"

definition uuid_hex :: "nat \<Rightarrow> string" where
  "uuid_hex u = map (\<lambda>i. hex_char (u div 16 ^ (31 - i))) [0..<32]"

record Threat =
  source :: string
  severity :: string
  type :: string
  description :: string
  attacker_ip :: "string option"
  attacker_geo :: "string option"
  raw_log :: "string option"
  risk_score :: real
  rule_id :: "string option"
  anomaly_score :: "real option"
  llm_explanation :: "string option"
  status :: string
  id :: string
  created_at :: string
  resolved_at :: "string option"
  resolved_by :: "string option"

text \<open>
  The two default factories of the dataclass read the random generator and the clock:
  \<open>fresh_uuid\<close> is the UUID that \<open>uuid.uuid4()\<close> returns and \<open>now_iso\<close> the string that
  \<open>datetime.isoformat(datetime.now())\<close> returns at the moment of construction.
\<close>

record env =
  fresh_uuid :: nat
  now_iso :: string

definition threat_id :: "nat \<Rightarrow> string" where
  "threat_id u = ''THR-'' @ take 12 (uuid_hex u)"

text \<open>The regular expression \<open>^THR-[0-9a-f]{12}$\<close>, as a check on strings.\<close>

definition is_threat_id :: "string \<Rightarrow> bool" where
  "is_threat_id s \<longleftrightarrow>
     length s = 16 \<and> take 4 s = ''THR-'' \<and> list_all (\<lambda>c. c \<in> set hexdigits) (drop 4 s)"

section \<open>parser/base.py: ParsedEvent\<close>

text \<open>The parsers of the repository fill \<open>data\<close> with strings and, from \<open>groupdict()\<close>,
  \<open>None\<close>.\<close>

record ParsedEvent =
  ev_source :: string
  ev_timestamp :: real
  ev_raw :: string
  ev_data :: strdict
  ev_type :: string

section \<open>detector/rules/engine.py\<close>

text \<open>
  A compiled \<open>re.Pattern\<close> is used only through \<open>pattern.search(s)\<close> followed by
  \<open>match.groupdict()\<close>, so a pattern is modelled by that function: \<open>None\<close> when the search
  finds no match, otherwise the dictionary of the named groups of the first match (a group
  that took no part in the match is stored with \<open>None\<close>).
\<close>

type_synonym pattern = "string \<Rightarrow> strdict option"

record Rule =
  rule_ident :: string
  rule_name :: string
  rule_description :: string
  rule_severity :: string
  rule_source :: string
  rule_patterns :: "pattern list"
  rule_threshold :: int
  rule_window :: int

record RuleEngine =
  rules_path :: string
  rules :: "Rule list"
  state :: "string \<rightharpoonup> real list"

definition make_threat :: "env \<Rightarrow> Rule \<Rightarrow> ParsedEvent \<Rightarrow> strdict \<Rightarrow> Threat" where
  "make_threat e rule event groups =
     \<lparr> source = ev_source event,
       severity = rule_severity rule,
       type = ''rule_match'',
       description = rule_description rule,
       attacker_ip =
         py_or (py_or (py_or (dict_get groups ''attacker_ip'') (dict_get groups ''ip''))
                  (dict_get (ev_data event) ''ip''))
           (dict_get (ev_data event) ''remote_addr''),
       attacker_geo = None,
       raw_log = Some (ev_raw event),
       risk_score = 0.8,
       rule_id = Some (rule_ident rule),
       anomaly_score = None,
       llm_explanation = None,
       status = ''open'',
       id = threat_id (fresh_uuid e),
       created_at = now_iso e,
       resolved_at = None,
       resolved_by = None \<rparr>"

text \<open>The inner loop \<open>for pattern in rule.patterns\<close>: the groups of the first pattern that matches.\<close>

fun search_patterns :: "pattern list \<Rightarrow> string \<Rightarrow> strdict option" where
  "search_patterns [] raw = None"
| "search_patterns (p # ps) raw =
     (case p raw of Some groups \<Rightarrow> Some groups | None \<Rightarrow> search_patterns ps raw)"

text \<open>The outer loop \<open>for rule in self.rules\<close>, with its \<open>continue\<close> and its \<open>return\<close>.\<close>

fun evaluate_rules :: "env \<Rightarrow> Rule list \<Rightarrow> ParsedEvent \<Rightarrow> Threat option" where
  "evaluate_rules e [] event = None"
| "evaluate_rules e (rule # rest) event =
     (if rule_source rule \<noteq> ''any'' \<and> rule_source rule \<noteq> ev_source event
      then evaluate_rules e rest event
      else case search_patterns (rule_patterns rule) (ev_raw event) of
             Some groups \<Rightarrow> Some (make_threat e rule event groups)
           | None \<Rightarrow> evaluate_rules e rest event)"

text \<open>
  \<open>RuleEngine.evaluate\<close> is a method on a mutable object: the model returns the result
  together with the engine as the call leaves it. The body never assigns to \<open>self.rules\<close>
  or \<open>self.state\<close>.
\<close>

definition evaluate :: "env \<Rightarrow> RuleEngine \<Rightarrow> ParsedEvent \<Rightarrow> Threat option \<times> RuleEngine" where
  "evaluate e self event = (evaluate_rules e (rules self) event, self)"

section \<open>collector/watcher.py\<close>

datatype exc = TypeError | ValueError | AttributeError | KeyError | OverflowError

text \<open>
  The part of the file system the tailer sees: the directory maps a path to the inode it
  names (\<open>os.stat(path).st_ino\<close>, \<open>FileNotFoundError\<close> when there is none), and every inode
  has its text. The text is what a handle opened with mode \<open>"r"\<close> reads, that is, after
  decoding and after the translation of line endings to \<open>\n\<close>. Opening a path that exists
  succeeds (permissions are not modelled).
\<close>

record filesystem =
  names :: "string \<rightharpoonup> nat"
  data :: "nat \<Rightarrow> string"

text \<open>An open file object: the inode it was opened on, its read position, and whether
  \<open>close()\<close> was called on it.\<close>

record handle =
  h_inode :: nat
  h_pos :: nat
  h_closed :: bool

record LogEvent =
  source_path :: string
  content :: string
  timestamp :: real

record FileTailer =
  path :: string
  start_at_end :: bool
  fd :: "handle option"
  inode :: "nat option"
  offset :: nat

text \<open>\<open>FileTailer(path, start_at_end)\<close>; the attribute \<open>file\<close> is set to \<open>None\<close> and never
  used.\<close>

definition new_tailer :: "string \<Rightarrow> bool \<Rightarrow> FileTailer" where
  "new_tailer p at_end = \<lparr> path = p, start_at_end = at_end, fd = None, inode = None, offset = 0 \<rparr>"

definition open_tailer :: "filesystem \<Rightarrow> FileTailer \<Rightarrow> FileTailer" where
  "open_tailer fs self =
     (case names fs (path self) of
        None \<Rightarrow> self
      | Some i \<Rightarrow>
          (if start_at_end self
           then self\<lparr> fd := Some \<lparr> h_inode = i, h_pos = length (data fs i), h_closed = False \<rparr>,
                      inode := Some i, offset := length (data fs i) \<rparr>
           else self\<lparr> fd := Some \<lparr> h_inode = i, h_pos = 0, h_closed = False \<rparr>,
                      inode := Some i, offset := 0 \<rparr>))"

definition newline :: char where
  "newline = CHR 0x0A"

text \<open>\<open>readline()\<close> on the rest of the file: up to and including the first newline, or all
  that is left when there is none; empty at the end of the file.\<close>

fun take_line :: "string \<Rightarrow> string" where
  "take_line [] = []"
| "take_line (c # cs) = (if c = newline then [c] else c # take_line cs)"

text \<open>\<open>str.strip()\<close>, on ASCII text: the white space of Python is the characters 9 to 13
  and 28 to 32.\<close>

definition is_space :: "char \<Rightarrow> bool" where
  "is_space c = (let n = (of_char c :: nat) in (9 \<le> n \<and> n \<le> 13) \<or> (28 \<le> n \<and> n \<le> 32))"

definition strip :: "string \<Rightarrow> string" where
  "strip s = rev (dropWhile is_space (rev (dropWhile is_space s)))"

text \<open>
  The \<open>while True\<close> loop of \<open>FileTailer.read\<close>, run against a file system that does not
  change during the call. The result is the list of the lines yielded, the tailer as the
  loop leaves it, and the exception that ended the generator, if one did (\<open>readline\<close> on a
  closed file object raises \<open>ValueError\<close>). Both branches of the test
  \<open>line.endswith("\n")\<close> yield \<open>line.strip()\<close>, the second one under \<open>len(line) > 0\<close>, which
  holds there.
\<close>

function read_loop ::
  "filesystem \<Rightarrow> FileTailer \<Rightarrow> string list \<Rightarrow> string list \<times> FileTailer \<times> exc option" where
  "read_loop fs self acc =
     (case fd self of
        None \<Rightarrow> (acc, self, Some AttributeError)
      | Some h \<Rightarrow>
          if h_closed h then (acc, self, Some ValueError)
          else if take_line (drop (h_pos h) (data fs (h_inode h))) \<noteq> []
          then read_loop fs
                 (self\<lparr> fd := Some (h\<lparr> h_pos := h_pos h
                     + length (take_line (drop (h_pos h) (data fs (h_inode h)))) \<rparr>) \<rparr>)
                 (acc @ [strip (take_line (drop (h_pos h) (data fs (h_inode h))))])
          else (case names fs (path self) of
                  None \<Rightarrow> (acc, self, None)
                | Some current_inode \<Rightarrow>
                    if Some current_inode \<noteq> inode self
                    then read_loop fs
                           (open_tailer fs (self\<lparr> fd := Some (h\<lparr> h_closed := True \<rparr>) \<rparr>)) acc
                    else (acc, self, None)))"
  by pat_completeness auto

text \<open>\<open>FileTailer.read\<close>: open first when there is no handle yet, give up when there is
  still none, otherwise run the loop.\<close>

definition read :: "filesystem \<Rightarrow> FileTailer \<Rightarrow> string list \<times> FileTailer \<times> exc option" where
  "read fs self =
     (case fd self of
        Some h \<Rightarrow> read_loop fs self []
      | None \<Rightarrow>
          (case fd (open_tailer fs self) of
             None \<Rightarrow> ([], open_tailer fs self, None)
           | Some h \<Rightarrow> read_loop fs (open_tailer fs self) []))"

text \<open>The body of the \<open>for path, tailer\<close> loop of \<open>LogWatcher.watch\<close> for one tailer: an
  event for every yielded line that is not empty, stamped with \<open>time.time()\<close>.\<close>

definition poll_events :: "real \<Rightarrow> string \<Rightarrow> string list \<Rightarrow> LogEvent list" where
  "poll_events now p lines =
     map (\<lambda>line. \<lparr> source_path = p, content = line, timestamp = now \<rparr>)
       (filter (\<lambda>line. line \<noteq> []) lines)"

text \<open>\<open>LogWatcher.tailers\<close> is a dictionary; the association list keeps its insertion
  order, and a dictionary has no key twice.\<close>

type_synonym LogWatcher = "(string \<times> FileTailer) list"

definition add_path :: "string \<Rightarrow> LogWatcher \<Rightarrow> LogWatcher" where
  "add_path p tailers =
     (if p \<notin> fst ` set tailers then tailers @ [(p, new_tailer p True)] else tailers)"

section \<open>ipc.py\<close>

text \<open>
  What \<open>json.loads\<close> returns: \<open>None\<close>, a \<open>bool\<close>, an \<open>int\<close>, a \<open>float\<close> (kept as its 64
  bits, it is only passed along), a \<open>str\<close>, a \<open>list\<close> or a \<open>dict\<close>. A request is a \<open>dict\<close>
  and is looked up by key; a response is written with its keys in the order of the source.
\<close>

datatype json =
    JNull
  | JBool bool
  | JInt int
  | JFloat "64 word"
  | JStr string
  | JArr "json list"
  | JObj "(string \<times> json) list"

text \<open>A handler either returns a value or raises an \<open>Exception\<close> \<open>e\<close>, given by \<open>str(e)\<close>.\<close>

datatype outcome = Returned json | Raised string

type_synonym handlers = "string \<rightharpoonup> (json \<Rightarrow> outcome)"

text \<open>\<open>request.get(key, default)\<close>.\<close>

definition req_get :: "(string \<rightharpoonup> json) \<Rightarrow> string \<Rightarrow> json \<Rightarrow> json" where
  "req_get request k dflt = (case request k of None \<Rightarrow> dflt | Some v \<Rightarrow> v)"

text \<open>A \<open>list\<close> and a \<open>dict\<close> have no hash: a membership test of one of them in a
  dictionary raises \<open>TypeError\<close>.\<close>

fun unhashable :: "json \<Rightarrow> bool" where
  "unhashable (JArr xs) = True"
| "unhashable (JObj kvs) = True"
| "unhashable v = False"

text \<open>\<open>method in self.handlers\<close> for a method that has a hash: the keys of the table
  are strings, and no other value equals a string.\<close>

fun method_in :: "json \<Rightarrow> handlers \<Rightarrow> bool" where
  "method_in (JStr m) hs = (hs m \<noteq> None)"
| "method_in v hs = False"

definition error_response :: "int \<Rightarrow> string \<Rightarrow> json \<Rightarrow> json" where
  "error_response code message msg_id =
     JObj [(''jsonrpc'', JStr ''2.0''),
           (''error'', JObj [(''code'', JInt code), (''message'', JStr message)]),
           (''id'', msg_id)]"

definition result_response :: "json \<Rightarrow> json \<Rightarrow> json" where
  "result_response result msg_id =
     JObj [(''jsonrpc'', JStr ''2.0''), (''result'', result), (''id'', msg_id)]"

text \<open>\<open>IPCServer.process_request\<close>: \<open>Inr\<close> is the response returned, \<open>Inl\<close> an exception
  that leaves the method.\<close>

definition process_request :: "handlers \<Rightarrow> (string \<rightharpoonup> json) \<Rightarrow> exc + json" where
  "process_request hs request =
     (let method = req_get request ''method'' JNull;
          params = req_get request ''params'' (JObj []);
          msg_id = req_get request ''id'' JNull
      in if unhashable method then Inl TypeError
         else if \<not> method_in method hs
         then Inr (error_response (- 32601) ''Method not found'' msg_id)
         else (case method of
                 JStr m \<Rightarrow>
                   (case hs m of
                      Some handler \<Rightarrow>
                        (case handler params of
                           Returned result \<Rightarrow> Inr (result_response result msg_id)
                         | Raised message \<Rightarrow> Inr (error_response (- 32000) message msg_id))
                    | None \<Rightarrow> Inl KeyError)
               | _ \<Rightarrow> Inl KeyError))"

section \<open>detector/pipeline.py\<close>

text \<open>\<open>sub in s\<close> on strings.\<close>

fun starts_with :: "string \<Rightarrow> string \<Rightarrow> bool" where
  "starts_with [] s = True"
| "starts_with (c # cs) [] = False"
| "starts_with (c # cs) (d # ds) = (c = d \<and> starts_with cs ds)"

fun contains :: "string \<Rightarrow> string \<Rightarrow> bool" where
  "contains sub [] = (sub = [])"
| "contains sub (c # cs) = (starts_with sub (c # cs) \<or> contains sub cs)"

datatype parser = NginxParser | SSHParser | GenericParser

text \<open>The dictionary \<open>self.parsers\<close> that \<open>DetectionPipeline.__init__\<close> builds.\<close>

definition parsers :: "string \<rightharpoonup> parser" where
  "parsers = [''nginx'' \<mapsto> NginxParser, ''ssh'' \<mapsto> SSHParser, ''generic'' \<mapsto> GenericParser]"

text \<open>\<open>d[k]\<close>, which raises \<open>KeyError\<close> on a missing key.\<close>

definition subscript :: "(string \<rightharpoonup> 'a) \<Rightarrow> string \<Rightarrow> exc + 'a" where
  "subscript d k = (case d k of None \<Rightarrow> Inl KeyError | Some v \<Rightarrow> Inr v)"

definition get_parser :: "(string \<rightharpoonup> parser) \<Rightarrow> string \<Rightarrow> exc + parser" where
  "get_parser ps p =
     (if contains ''nginx'' p then subscript ps ''nginx''
      else if contains ''auth.log'' p \<or> contains ''secure'' p then subscript ps ''ssh''
      else subscript ps ''generic'')"

section \<open>store/database.py\<close>

text \<open>
  The table \<open>threats\<close> is the list of its rows. \<open>get_threats\<close> runs
  \<open>SELECT * FROM threats ORDER BY created_at DESC LIMIT ?\<close>: the column \<open>created_at\<close> is
  \<open>TEXT\<close>, compared byte by byte; a negative \<open>LIMIT\<close> in SQLite puts no bound on the number
  of rows; a Python integer outside the 64-bit range cannot be bound to the parameter and
  raises \<open>OverflowError\<close>. Every row becomes a \<open>Threat\<close> with the same fields. The order
  SQLite gives to rows with equal \<open>created_at\<close> is not fixed; the model takes one.
\<close>

definition order_by_created_at_desc :: "Threat list \<Rightarrow> Threat list" where
  "order_by_created_at_desc rows = rev (sort_key created_at rows)"

definition sql_limit :: "int \<Rightarrow> 'a list \<Rightarrow> 'a list" where
  "sql_limit n xs = (if n < 0 then xs else take (nat n) xs)"

definition get_threats :: "Threat list \<Rightarrow> int \<Rightarrow> exc + Threat list" where
  "get_threats rows limit =
     (if limit < - (2 ^ 63) \<or> 2 ^ 63 \<le> limit then Inl OverflowError
      else Inr (sql_limit limit (order_by_created_at_desc rows)))"

section \<open>Properties and scenarios of the rule engine\<close>

text \<open>A rule applies to an event when the source filter lets it through and one of its
  patterns matches the raw line: the condition under which the loop reaches its \<open>return\<close>.\<close>

definition rule_applies :: "Rule \<Rightarrow> ParsedEvent \<Rightarrow> bool" where
  "rule_applies rule event \<longleftrightarrow>
     (rule_source rule = ''any'' \<or> rule_source rule = ev_source event)
     \<and> search_patterns (rule_patterns rule) (ev_raw event) \<noteq> None"

text \<open>The same condition stated on the patterns themselves: the source filter admits the
  event and some pattern of the rule finds a match in the raw line.\<close>

definition rule_triggers :: "Rule \<Rightarrow> ParsedEvent \<Rightarrow> bool" where
  "rule_triggers rule event \<longleftrightarrow>
     (rule_source rule = ''any'' \<or> rule_source rule = ev_source event)
     \<and> (\<exists>p\<in>set (rule_patterns rule). p (ev_raw event) \<noteq> None)"

text \<open>The fields that a \<open>Threat\<close> takes from the rule that produced it.\<close>

definition rule_fields :: "Rule \<Rightarrow> Threat \<Rightarrow> bool" where
  "rule_fields rule t \<longleftrightarrow>
     severity t = rule_severity rule \<and> type t = ''rule_match''
     \<and> description t = rule_description rule \<and> rule_id t = Some (rule_ident rule)
     \<and> risk_score t = 0.8 \<and> 0 \<le> risk_score t \<and> risk_score t \<le> 1
     \<and> status t = ''open'' \<and> is_threat_id (id t)"

text \<open>Two results that differ at most in the generated \<open>id\<close> and \<open>created_at\<close>.\<close>

definition same_but_fresh :: "Threat option \<Rightarrow> Threat option \<Rightarrow> bool" where
  "same_but_fresh a b \<longleftrightarrow>
     map_option (\<lambda>t. t\<lparr> id := [], created_at := [] \<rparr>) a
     = map_option (\<lambda>t. t\<lparr> id := [], created_at := [] \<rparr>) b"

text \<open>The engine called on one event after the other, as the main loop of the agent
  does through \<open>DetectionPipeline.analyze\<close>; every call has its own UUID and clock.\<close>

fun evaluate_all ::
  "RuleEngine \<Rightarrow> (env \<times> ParsedEvent) list \<Rightarrow> Threat option list \<times> RuleEngine" where
  "evaluate_all self [] = ([], self)"
| "evaluate_all self ((e, event) # rest) =
     (case evaluate e self event of
        (threat, self') \<Rightarrow>
          (case evaluate_all self' rest of (threats, self'') \<Rightarrow> (threat # threats, self'')))"

text \<open>\<open>re.compile(lit)\<close> for a pattern without metacharacters and without groups: the search
  succeeds when the text occurs in the line, and \<open>groupdict()\<close> is empty.\<close>

definition literal_pattern :: "string \<Rightarrow> pattern" where
  "literal_pattern lit = (\<lambda>raw. if contains lit raw then Some Map.empty else None)"

text \<open>The sliding-window scenario: one rule with \<open>threshold = 3\<close> and \<open>window = 60\<close>, and
  matching events of one attacker at \<open>t = 0, 10, 20, 30\<close>.\<close>

definition burst_rule :: Rule where
  "burst_rule =
     \<lparr> rule_ident = ''ssh-bf'', rule_name = ''SSH brute force'',
       rule_description = ''Repeated failed SSH logins'', rule_severity = ''HIGH'',
       rule_source = ''ssh'', rule_patterns = [literal_pattern ''Failed password for''],
       rule_threshold = 3, rule_window = 60 \<rparr>"

definition burst_engine :: RuleEngine where
  "burst_engine =
     \<lparr> rules_path = ''/etc/sentinel/rules'', rules = [burst_rule], state = Map.empty \<rparr>"

definition failed_login :: "real \<Rightarrow> ParsedEvent" where
  "failed_login t =
     \<lparr> ev_source = ''ssh'', ev_timestamp = t,
       ev_raw = ''sshd[123]: Failed password for root from 10.0.0.5 port 55555 ssh2'',
       ev_data = [''user'' \<mapsto> Some ''root'', ''ip'' \<mapsto> Some ''10.0.0.5''],
       ev_type = ''auth'' \<rparr>"

definition env_at :: "nat \<Rightarrow> string \<Rightarrow> env" where
  "env_at u now = \<lparr> fresh_uuid = u, now_iso = now \<rparr>"

definition burst :: "(env \<times> ParsedEvent) list" where
  "burst =
     [(env_at 0x0123456789abcdef0123456789abcdef ''2026-01-01T00:00:00'', failed_login 0),
      (env_at 0x1123456789abcdef0123456789abcdef ''2026-01-01T00:00:10'', failed_login 10),
      (env_at 0x2123456789abcdef0123456789abcdef ''2026-01-01T00:00:20'', failed_login 20),
      (env_at 0x3123456789abcdef0123456789abcdef ''2026-01-01T00:00:30'', failed_login 30)]"

text \<open>Two more rules whose pattern matches a failed login: one for every source, placed
  before the brute-force rule, and one for the source \<open>nginx\<close>.\<close>

definition low_rule :: Rule where
  "low_rule =
     \<lparr> rule_ident = ''any-low'', rule_name = ''Any failed password'',
       rule_description = ''A password was rejected'', rule_severity = ''LOW'',
       rule_source = ''any'', rule_patterns = [literal_pattern ''Failed password''],
       rule_threshold = 1, rule_window = 60 \<rparr>"

definition web_rule :: Rule where
  "web_rule =
     \<lparr> rule_ident = ''web-pw'', rule_name = ''Password in web log'',
       rule_description = ''A password failure in a web log'', rule_severity = ''MEDIUM'',
       rule_source = ''nginx'', rule_patterns = [literal_pattern ''Failed password''],
       rule_threshold = 1, rule_window = 60 \<rparr>"

definition engine_of :: "Rule list \<Rightarrow> RuleEngine" where
  "engine_of rs = \<lparr> rules_path = ''/etc/sentinel/rules'', rules = rs, state = Map.empty \<rparr>"

section \<open>Scenarios of the collector, the store and the IPC server\<close>

text \<open>The external actor of the rotation scenario: \<open>mv\<close>, \<open>touch\<close> (which creates the file
  on a new inode) and \<open>echo text >> path\<close>.\<close>

definition mv :: "string \<Rightarrow> string \<Rightarrow> filesystem \<Rightarrow> filesystem" where
  "mv src dst fs =
     (case names fs src of
        None \<Rightarrow> fs
      | Some i \<Rightarrow> fs\<lparr> names := (names fs)(src := None, dst \<mapsto> i) \<rparr>)"

definition touch :: "string \<Rightarrow> nat \<Rightarrow> filesystem \<Rightarrow> filesystem" where
  "touch p fresh fs =
     (case names fs p of
        Some i \<Rightarrow> fs
      | None \<Rightarrow> fs\<lparr> names := (names fs)(p \<mapsto> fresh), data := (data fs)(fresh := []) \<rparr>)"

definition append_to :: "string \<Rightarrow> string \<Rightarrow> filesystem \<Rightarrow> filesystem" where
  "append_to p text fs =
     (case names fs p of
        None \<Rightarrow> fs
      | Some i \<Rightarrow> fs\<lparr> data := (data fs)(i := data fs i @ text) \<rparr>)"

text \<open>\<open>/tmp/x.log\<close> on inode 1 before the rotation; afterwards the old file is
  \<open>/tmp/x.log.1\<close> and \<open>/tmp/x.log\<close> is a new file on inode 2 that holds the line \<open>hello\<close>.\<close>

definition fs_before :: filesystem where
  "fs_before =
     \<lparr> names = [''/tmp/x.log'' \<mapsto> 1], data = (\<lambda>i. [])(1 := ''old line'' @ [newline]) \<rparr>"

definition fs_after :: filesystem where
  "fs_after =
     append_to ''/tmp/x.log'' (''hello'' @ [newline])
       (touch ''/tmp/x.log'' 2 (mv ''/tmp/x.log'' ''/tmp/x.log.1'' fs_before))"

text \<open>A tailer of \<open>/tmp/x.log\<close> after one poll before the rotation: it stands at the end of
  the file on inode 1. \<open>LogWatcher.add_path\<close> builds its tailers with \<open>start_at_end = True\<close>.\<close>

definition tailer_at_eof :: "bool \<Rightarrow> FileTailer" where
  "tailer_at_eof at_end = fst (snd (read fs_before (new_tailer ''/tmp/x.log'' at_end)))"

text \<open>Rows of the table \<open>threats\<close>, in the order of their insertion.\<close>

definition stored_threat :: "string \<Rightarrow> string \<Rightarrow> Threat" where
  "stored_threat ident stamp =
     \<lparr> source = ''ssh'', severity = ''HIGH'', type = ''rule_match'',
       description = ''Repeated failed SSH logins'', attacker_ip = Some ''10.0.0.5'',
       attacker_geo = None, raw_log = None, risk_score = 0.8, rule_id = Some ''ssh-bf'',
       anomaly_score = None, llm_explanation = None, status = ''open'', id = ident,
       created_at = stamp, resolved_at = None, resolved_by = None \<rparr>"

definition table :: "Threat list" where
  "table = [stored_threat ''THR-000000000001'' ''2026-01-01T00:00:00'',
            stored_threat ''THR-000000000003'' ''2026-01-03T00:00:00'',
            stored_threat ''THR-000000000002'' ''2026-01-02T00:00:00'']"

text \<open>\<open>created_at\<close> does not increase from the first element to the last.\<close>

definition non_increasing :: "Threat list \<Rightarrow> bool" where
  "non_increasing ts = sorted_wrt (\<lambda>a b. created_at b \<le> created_at a) ts"

text \<open>A handler table like the one of \<open>SentinelAgent\<close>: \<open>status\<close> returns, \<open>threats\<close> raises
  (as it does when the store fails).\<close>

definition sample_handlers :: handlers where
  "sample_handlers =
     [''status'' \<mapsto> (\<lambda>params. Returned (JObj [(''status'', JStr ''running''), (''uptime'', JStr ''TODO''),
                                                     (''monitored_files'', JArr [])])),
      ''threats'' \<mapsto> (\<lambda>params. Raised ''database is locked'')]"

text \<open>A response object: \<open>"jsonrpc": "2.0"\<close>, the given \<open>id\<close>, and exactly one of the keys
  \<open>result\<close> and \<open>error\<close>.\<close>

definition response_ok :: "json \<Rightarrow> json \<Rightarrow> bool" where
  "response_ok msg_id response =
     (case response of
        JObj kvs \<Rightarrow>
          map_of kvs ''jsonrpc'' = Some (JStr ''2.0'')
          \<and> map_of kvs ''id'' = Some msg_id
          \<and> ((''result'' \<in> fst ` set kvs) \<noteq> (''error'' \<in> fst ` set kvs))
      | _ \<Rightarrow> False)"

definition nope_request :: "string \<rightharpoonup> json" where
  "nope_request = [''jsonrpc'' \<mapsto> JStr ''2.0'', ''method'' \<mapsto> JStr ''nope'',
                   ''params'' \<mapsto> JObj [], ''id'' \<mapsto> JStr ''a'']"

definition threats_request :: "string \<rightharpoonup> json" where
  "threats_request = [''jsonrpc'' \<mapsto> JStr ''2.0'', ''method'' \<mapsto> JStr ''threats'',
                      ''params'' \<mapsto> JObj [(''limit'', JInt 5)], ''id'' \<mapsto> JInt 7]"

text \<open>A JSON value other than an array or an object.\<close>

definition json_scalar :: "json \<Rightarrow> bool" where
  "json_scalar v = (case v of JArr xs \<Rightarrow> False | JObj kvs \<Rightarrow> False | _ \<Rightarrow> True)"

text \<open>A request whose \<open>method\<close> is an object.\<close>

definition object_method_request :: "string \<rightharpoonup> json" where
  "object_method_request = [''jsonrpc'' \<mapsto> JStr ''2.0'', ''method'' \<mapsto> JObj [],
                            ''params'' \<mapsto> JObj [], ''id'' \<mapsto> JStr ''a'']"

section \<open>Termination of the read loop\<close>

definition rotated :: "filesystem \<Rightarrow> FileTailer \<Rightarrow> nat" where
  "rotated fs self =
     (case names fs (path self) of
        None \<Rightarrow> 0
      | Some i \<Rightarrow> if Some i \<noteq> inode self then 1 else 0)"

definition unread :: "filesystem \<Rightarrow> FileTailer \<Rightarrow> nat" where
  "unread fs self =
     (case fd self of None \<Rightarrow> 0 | Some h \<Rightarrow> length (data fs (h_inode h)) - h_pos h)"

lemma take_line_length: "length (take_line s) \<le> length s"
  by (induction s) auto

lemma take_line_drop_length:
  "take_line (drop n s) \<noteq> [] \<Longrightarrow> length s - (n + length (take_line (drop n s))) < length s - n"
proof -
  assume ne: "take_line (drop n s) \<noteq> []"
  have "length (take_line (drop n s)) \<le> length s - n"
    using take_line_length [of "drop n s"] by simp
  moreover have "0 < length (take_line (drop n s))"
    using ne by simp
  ultimately show ?thesis by arith
qed

lemma rotated_fd_update: "rotated fs (self\<lparr> fd := f \<rparr>) = rotated fs self"
  by (simp add: rotated_def split: option.splits)

lemma unread_advance:
  assumes "fd self = Some h" and "take_line (drop (h_pos h) (data fs (h_inode h))) \<noteq> []"
  shows "unread fs (self\<lparr> fd := Some (h\<lparr> h_pos := h_pos h
           + length (take_line (drop (h_pos h) (data fs (h_inode h)))) \<rparr>) \<rparr>) < unread fs self"
  using assms take_line_drop_length [of "h_pos h" "data fs (h_inode h)"]
  by (simp add: unread_def)

lemma rotated_now:
  "names fs (path self) = Some i \<Longrightarrow> Some i \<noteq> inode self \<Longrightarrow> rotated fs self = 1"
  by (simp add: rotated_def)

lemma rotated_open_tailer:
  "names fs (path self) = Some i \<Longrightarrow> rotated fs (open_tailer fs (self\<lparr> fd := f \<rparr>)) = 0"
  by (simp add: rotated_def open_tailer_def)

termination read_loop
proof (relation "measures [\<lambda>(fs, self, acc). rotated fs self, \<lambda>(fs, self, acc). unread fs self]")
  show "wf (measures [\<lambda>(fs, self, acc). rotated fs self, \<lambda>(fs, self, acc). unread fs self])"
    by simp
next
  fix fs :: filesystem and self :: FileTailer and acc :: "string list" and h :: handle
  assume "fd self = Some h" "\<not> h_closed h"
    and ne: "take_line (drop (h_pos h) (data fs (h_inode h))) \<noteq> []"
  then show "((fs, self\<lparr> fd := Some (h\<lparr> h_pos := h_pos h
                 + length (take_line (drop (h_pos h) (data fs (h_inode h)))) \<rparr>) \<rparr>,
               acc @ [strip (take_line (drop (h_pos h) (data fs (h_inode h))))]),
              (fs, self, acc))
             \<in> measures [\<lambda>(fs, self, acc). rotated fs self, \<lambda>(fs, self, acc). unread fs self]"
    using unread_advance [of self h fs] by (simp add: rotated_fd_update)
next
  fix fs :: filesystem and self :: FileTailer and acc :: "string list" and h :: handle
    and current_inode :: nat
  assume "names fs (path self) = Some current_inode" "Some current_inode \<noteq> inode self"
  then show "((fs, open_tailer fs (self\<lparr> fd := Some (h\<lparr> h_closed := True \<rparr>) \<rparr>), acc),
              (fs, self, acc))
             \<in> measures [\<lambda>(fs, self, acc). rotated fs self, \<lambda>(fs, self, acc). unread fs self]"
    using rotated_open_tailer [of fs self current_inode] rotated_now [of fs self current_inode]
    by simp
qed

declare read_loop.simps [simp del]

section \<open>The rule engine\<close>

lemma search_patterns_Some:
  "search_patterns ps raw = Some groups \<Longrightarrow> \<exists>p\<in>set ps. p raw = Some groups"
  by (induction ps) (auto split: option.splits)

lemma search_patterns_None: "search_patterns ps raw = None \<longleftrightarrow> (\<forall>p\<in>set ps. p raw = None)"
  by (induction ps) (auto split: option.splits)

lemma evaluate_rules_find:
  "evaluate_rules e rs event =
     (case find (\<lambda>r. rule_applies r event) rs of
        None \<Rightarrow> None
      | Some r \<Rightarrow> Some (make_threat e r event (the (search_patterns (rule_patterns r) (ev_raw event)))))"
  by (induction rs) (auto simp: rule_applies_def split: option.splits)

lemma hex_char_in: "hex_char k \<in> set hexdigits"
  unfolding hex_char_def by (rule nth_mem) (simp add: hexdigits_def)

lemma uuid_hex_length: "length (uuid_hex u) = 32"
  by (simp add: uuid_hex_def)

lemma uuid_hex_set: "set (uuid_hex u) \<subseteq> set hexdigits"
  by (auto simp: uuid_hex_def hex_char_in)

lemma threat_id_ok: "is_threat_id (threat_id u)"
  using uuid_hex_set [of u] set_take_subset [of 12 "uuid_hex u"]
  by (auto simp: is_threat_id_def threat_id_def uuid_hex_length list_all_iff)

lemma make_threat_fields: "rule_fields rule (make_threat e rule event groups)"
  by (simp add: rule_fields_def make_threat_def threat_id_ok)

lemma find_none: "find P rs = None \<longleftrightarrow> (\<forall>r\<in>set rs. \<not> P r)"
  by (induction rs) auto

lemma failed_login_matches:
  "literal_pattern ''Failed password for'' (ev_raw (failed_login t)) = Some Map.empty"
  by (simp add: literal_pattern_def failed_login_def)

lemma burst_rule_applies: "rule_applies burst_rule (failed_login t)"
  by (simp add: rule_applies_def burst_rule_def failed_login_matches) (simp add: failed_login_def)

lemma evaluate_rules_ignores_aggregation:
  "evaluate_rules e (map (\<lambda>r. r\<lparr> rule_threshold := th r, rule_window := w r \<rparr>) rs) event
   = evaluate_rules e rs event"
  by (induction rs) (auto simp: make_threat_def split: option.splits)

lemma evaluate_all_frame: "snd (evaluate_all self evs) = self"
  by (induction evs arbitrary: self) (auto simp: evaluate_def split_beta)

lemma evaluate_all_map:
  "fst (evaluate_all self evs) = map (\<lambda>(e, event). fst (evaluate e self event)) evs"
  by (induction evs arbitrary: self) (auto simp: evaluate_def split_beta)

lemma threat_id_first: "threat_id u ! 4 = hex_char (u div 16 ^ 31)"
  by (simp add: threat_id_def uuid_hex_def nth_append take_map)

lemma rule_triggers_applies: "rule_triggers rule event \<longleftrightarrow> rule_applies rule event"
  by (auto simp: rule_triggers_def rule_applies_def search_patterns_None)

lemma evaluate_rules_skip:
  "\<forall>r\<in>set before. \<not> rule_applies r event \<Longrightarrow>
   evaluate_rules e (before @ rs) event = evaluate_rules e rs event"
  by (induction before) (auto simp: rule_applies_def split: option.splits)

lemma evaluate_rules_head:
  "rule_applies rule event \<Longrightarrow>
   \<exists>groups. evaluate_rules e (rule # rs) event = Some (make_threat e rule event groups)"
  by (auto simp: rule_applies_def split: option.splits)

lemma evaluate_rules_none:
  "\<forall>r\<in>set rs. \<not> rule_applies r event \<Longrightarrow> evaluate_rules e rs event = None"
  by (induction rs) (auto simp: rule_applies_def split: option.splits)

lemma failed_login_matches_short:
  "literal_pattern ''Failed password'' (ev_raw (failed_login t)) = Some Map.empty"
  by (simp add: literal_pattern_def failed_login_def)

lemma web_rule_filtered: "\<not> rule_triggers web_rule (failed_login t)"
  by (simp add: rule_triggers_def web_rule_def) (simp add: failed_login_def)

lemma burst_rule_triggers: "rule_triggers burst_rule (failed_login t)"
  by (simp add: rule_triggers_def burst_rule_def failed_login_matches) (simp add: failed_login_def)

text \<open>
  Claim C3, as stated, fails. In an engine with the rules \<open>any-low\<close> (source \<open>any\<close>,
  severity \<open>LOW\<close>) and \<open>ssh-bf\<close> (severity \<open>HIGH\<close>), in this order, the pattern of \<open>ssh-bf\<close>
  matches the failed login, and the \<open>Threat\<close> returned has severity \<open>LOW\<close> and
  \<open>rule_id = "any-low"\<close>: the loop returns at the first rule that matches. And in an engine
  whose only rule has a matching pattern but the source \<open>nginx\<close>, the event of source \<open>ssh\<close>
  yields no \<open>Threat\<close>.
\<close>

theorem matching_rule_fields_counterexample:
  "burst_rule \<in> set (rules (engine_of [low_rule, burst_rule]))
   \<and> literal_pattern ''Failed password for'' (ev_raw (failed_login 0)) \<noteq> None
   \<and> rule_severity burst_rule = ''HIGH'' \<and> rule_ident burst_rule = ''ssh-bf''
   \<and> map_option severity
        (fst (evaluate (env_at 0x0123456789abcdef0123456789abcdef ''2026-01-01T00:00:00'')
               (engine_of [low_rule, burst_rule]) (failed_login 0))) = Some ''LOW''
   \<and> map_option rule_id
        (fst (evaluate (env_at 0x0123456789abcdef0123456789abcdef ''2026-01-01T00:00:00'')
               (engine_of [low_rule, burst_rule]) (failed_login 0))) = Some (Some ''any-low'')
   \<and> web_rule \<in> set (rules (engine_of [web_rule]))
   \<and> literal_pattern ''Failed password'' (ev_raw (failed_login 0)) \<noteq> None
   \<and> fst (evaluate (env_at 0x0123456789abcdef0123456789abcdef ''2026-01-01T00:00:00'')
            (engine_of [web_rule]) (failed_login 0)) = None"
  by (simp add: engine_of_def evaluate_def failed_login_matches failed_login_matches_short)
     (simp add: low_rule_def web_rule_def burst_rule_def failed_login_matches_short,
      simp add: failed_login_def make_threat_def)

text \<open>
  Claim C3, amended. \<open>evaluate\<close> returns a \<open>Threat\<close> for the first rule, in the order of the
  list, whose source is \<open>any\<close> or the source of the event and one of whose patterns matches
  the raw line, and returns nothing when there is no such rule. The \<open>Threat\<close> has
  \<open>severity = rule.severity\<close>, \<open>type = "rule_match"\<close>, \<open>description = rule.description\<close>,
  \<open>rule_id = rule.id\<close> (present), \<open>risk_score = 0.8\<close>, which lies between 0 and 1,
  \<open>status = "open"\<close>, and an \<open>id\<close> of the form \<open>THR-\<close> and twelve lower-case hexadecimal
  digits, all of that rule.
\<close>

theorem evaluate_first_rule_fields:
  "(rules self = before @ rule # rest
      \<and> (\<forall>r\<in>set before. \<not> rule_triggers r event) \<and> rule_triggers rule event
    \<longrightarrow> (\<exists>t. fst (evaluate e self event) = Some t \<and> rule_fields rule t))
   \<and> ((\<forall>r\<in>set (rules self). \<not> rule_triggers r event) \<longrightarrow> fst (evaluate e self event) = None)"
proof (intro conjI impI)
  assume a: "rules self = before @ rule # rest
      \<and> (\<forall>r\<in>set before. \<not> rule_triggers r event) \<and> rule_triggers rule event"
  then have "evaluate_rules e (rules self) event = evaluate_rules e (rule # rest) event"
    by (simp add: evaluate_rules_skip rule_triggers_applies)
  moreover from a obtain groups
    where "evaluate_rules e (rule # rest) event = Some (make_threat e rule event groups)"
    using evaluate_rules_head [of rule event e rest] by (auto simp: rule_triggers_applies)
  ultimately show "\<exists>t. fst (evaluate e self event) = Some t \<and> rule_fields rule t"
    by (simp add: evaluate_def make_threat_fields)
next
  assume "\<forall>r\<in>set (rules self). \<not> rule_triggers r event"
  then show "fst (evaluate e self event) = None"
    by (simp add: evaluate_def evaluate_rules_none rule_triggers_applies)
qed

text \<open>Claim C3 amended, witness: the rule for \<open>nginx\<close> is passed over and the brute-force
  rule produces the \<open>Threat\<close>.\<close>

theorem evaluate_first_rule_fields_witness:
  "rules (engine_of [web_rule, burst_rule]) = [web_rule] @ burst_rule # []
   \<and> \<not> rule_triggers web_rule (failed_login 0)
   \<and> rule_triggers burst_rule (failed_login 0)
   \<and> (\<exists>t. fst (evaluate (env_at 0x0123456789abcdef0123456789abcdef ''2026-01-01T00:00:00'')
              (engine_of [web_rule, burst_rule]) (failed_login 0)) = Some t
        \<and> severity t = ''HIGH'' \<and> type t = ''rule_match''
        \<and> description t = ''Repeated failed SSH logins'' \<and> rule_id t = Some ''ssh-bf''
        \<and> risk_score t = 0.8 \<and> status t = ''open'' \<and> is_threat_id (id t))"
proof -
  let ?e = "env_at 0x0123456789abcdef0123456789abcdef ''2026-01-01T00:00:00''"
  have a: "rules (engine_of [web_rule, burst_rule]) = [web_rule] @ burst_rule # []"
    by (simp add: engine_of_def)
  have b: "\<forall>r\<in>set [web_rule]. \<not> rule_triggers r (failed_login 0)"
    by (simp add: web_rule_filtered)
  from a b burst_rule_triggers [of 0]
    evaluate_first_rule_fields [where self = "engine_of [web_rule, burst_rule]"
      and before = "[web_rule]" and rule = burst_rule and rest = "[]"
      and event = "failed_login 0" and e = ?e]
  obtain t where "fst (evaluate ?e (engine_of [web_rule, burst_rule]) (failed_login 0)) = Some t"
    and "rule_fields burst_rule t"
    by blast
  then have "\<exists>t. fst (evaluate ?e (engine_of [web_rule, burst_rule]) (failed_login 0)) = Some t
        \<and> severity t = ''HIGH'' \<and> type t = ''rule_match''
        \<and> description t = ''Repeated failed SSH logins'' \<and> rule_id t = Some ''ssh-bf''
        \<and> risk_score t = 0.8 \<and> status t = ''open'' \<and> is_threat_id (id t)"
    by (auto simp: rule_fields_def burst_rule_def)
  with a web_rule_filtered [of 0] burst_rule_triggers [of 0] show ?thesis
    by blast
qed

text \<open>
  Claim C1, as stated, fails: with \<open>threshold = 3\<close> and \<open>window = 60\<close>, each of the four
  matches at \<open>t = 0, 10, 20, 30\<close> yields a \<open>Threat\<close>, where the claim has one on the third
  match only.
\<close>

theorem sliding_window_counterexample:
  "map (\<lambda>threat. threat \<noteq> None) (fst (evaluate_all burst_engine burst)) = [True, True, True, True]
   \<and> rule_threshold burst_rule = 3 \<and> rule_window burst_rule = 60"
  by (simp add: evaluate_all_map burst_def evaluate_def burst_engine_def)
     (simp add: burst_rule_def failed_login_matches, simp add: failed_login_def)

text \<open>
  Claim C1, amended. \<open>evaluate\<close> does no aggregation: its result is the same whatever the
  thresholds and windows of the rules and whatever the bucket state, the call leaves the
  engine as it was, and in a sequence of events to each of which a rule applies every
  event yields a \<open>Threat\<close>.
\<close>

theorem evaluate_emits_every_match:
  "fst (evaluate e (self\<lparr> rules := map (\<lambda>r. r\<lparr> rule_threshold := th r, rule_window := w r \<rparr>) (rules self),
                         state := s \<rparr>) event) = fst (evaluate e self event)
   \<and> snd (evaluate e self event) = self
   \<and> ((\<forall>(e', event')\<in>set evs. \<exists>rule\<in>set (rules self). rule_applies rule event') \<longrightarrow>
        length (fst (evaluate_all self evs)) = length evs
        \<and> list_all (\<lambda>threat. threat \<noteq> None) (fst (evaluate_all self evs))
        \<and> snd (evaluate_all self evs) = self)"
proof (intro conjI impI)
  show "fst (evaluate e (self\<lparr> rules := map (\<lambda>r. r\<lparr> rule_threshold := th r, rule_window := w r \<rparr>) (rules self),
                         state := s \<rparr>) event) = fst (evaluate e self event)"
    by (simp add: evaluate_def evaluate_rules_ignores_aggregation)
  show "snd (evaluate e self event) = self"
    by (simp add: evaluate_def)
next
  assume all: "\<forall>(e', event')\<in>set evs. \<exists>rule\<in>set (rules self). rule_applies rule event'"
  show "length (fst (evaluate_all self evs)) = length evs"
    by (simp add: evaluate_all_map)
  show "snd (evaluate_all self evs) = self"
    by (rule evaluate_all_frame)
  have "\<And>e' event'. (e', event') \<in> set evs \<Longrightarrow> fst (evaluate e' self event') \<noteq> None"
  proof -
    fix e' event'
    assume "(e', event') \<in> set evs"
    with all have "\<exists>rule\<in>set (rules self). rule_applies rule event'"
      by auto
    then have "find (\<lambda>r. rule_applies r event') (rules self) \<noteq> None"
      by (simp add: find_none)
    then show "fst (evaluate e' self event') \<noteq> None"
      by (auto simp: evaluate_def evaluate_rules_find)
  qed
  then show "list_all (\<lambda>threat. threat \<noteq> None) (fst (evaluate_all self evs))"
    by (auto simp: evaluate_all_map list_all_iff)
qed

text \<open>Claim C1 amended, witness: the four matches of the scenario.\<close>

theorem evaluate_emits_every_match_witness:
  "list_all (\<lambda>(e', event'). rule_applies burst_rule event') burst
   \<and> rule_threshold burst_rule = 3 \<and> rule_window burst_rule = 60
   \<and> length (fst (evaluate_all burst_engine burst)) = 4
   \<and> list_all (\<lambda>threat. threat \<noteq> None) (fst (evaluate_all burst_engine burst))
   \<and> snd (evaluate_all burst_engine burst) = burst_engine"
proof -
  have a: "\<forall>(e', event')\<in>set burst. \<exists>rule\<in>set (rules burst_engine). rule_applies rule event'"
    by (simp add: burst_def burst_engine_def burst_rule_applies)
  have "length burst = 4"
    by (simp add: burst_def)
  moreover have "list_all (\<lambda>(e', event'). rule_applies burst_rule event') burst"
    by (simp add: burst_def burst_rule_applies)
  moreover have "rule_threshold burst_rule = 3 \<and> rule_window burst_rule = 60"
    by (simp add: burst_rule_def)
  ultimately show ?thesis
    using a evaluate_emits_every_match [where self = burst_engine and evs = burst] by simp
qed

text \<open>
  Claim C9, as stated, fails in its last part: two calls on equal events, the second on
  the engine as the first left it, return \<open>Threat\<close>s with different \<open>id\<close>s, since each
  construction draws a new UUID.
\<close>

theorem evaluate_repeat_counterexample:
  "fst (evaluate (env_at 0x0123456789abcdef0123456789abcdef ''2026-01-01T00:00:00'')
         burst_engine (failed_login 0))
   \<noteq> fst (evaluate (env_at 0xfedcba98765432100123456789abcdef ''2026-01-01T00:00:00'')
         (snd (evaluate (env_at 0x0123456789abcdef0123456789abcdef ''2026-01-01T00:00:00'')
                burst_engine (failed_login 0)))
         (failed_login 0))"
proof -
  have "threat_id 0x0123456789abcdef0123456789abcdef ! 4
        \<noteq> threat_id 0xfedcba98765432100123456789abcdef ! 4"
    by (simp add: threat_id_first hex_char_def hexdigits_def)
  then have "threat_id 0x0123456789abcdef0123456789abcdef \<noteq> threat_id 0xfedcba98765432100123456789abcdef"
    by auto
  then show ?thesis
    by (simp add: evaluate_def burst_engine_def burst_rule_def failed_login_matches)
       (simp add: failed_login_def make_threat_def env_at_def)
qed

text \<open>
  Claim C9, amended. \<open>evaluate\<close> never changes the engine: the state mapping and the rule
  list are the same after the call as before. Applied twice to equal events it returns
  results that agree in every field but the generated \<open>id\<close> and \<open>created_at\<close>, and equal
  results when the UUID and the clock are the same.
\<close>

theorem evaluate_frame:
  "snd (evaluate e self event) = self
   \<and> state (snd (evaluate e self event)) = state self
   \<and> rules (snd (evaluate e self event)) = rules self
   \<and> same_but_fresh (fst (evaluate e self event))
        (fst (evaluate e' (snd (evaluate e self event)) event))
   \<and> fst (evaluate e (snd (evaluate e self event)) event) = fst (evaluate e self event)"
  by (simp add: evaluate_def same_but_fresh_def evaluate_rules_find make_threat_def
       split: option.splits)

section \<open>The tailer\<close>

lemma rotation_seeks_to_end:
  assumes "fd self = Some h" and "\<not> h_closed h" and "length (data fs (h_inode h)) \<le> h_pos h"
    and "names fs (path self) = Some i" and "Some i \<noteq> inode self" and "start_at_end self"
  shows "read fs self =
     ([], self\<lparr> fd := Some \<lparr> h_inode = i, h_pos = length (data fs i), h_closed = False \<rparr>,
               inode := Some i, offset := length (data fs i) \<rparr>, None)"
proof -
  let ?opened = "open_tailer fs (self\<lparr> fd := Some (h\<lparr> h_closed := True \<rparr>) \<rparr>)"
  have opened: "?opened = self\<lparr> fd := Some \<lparr> h_inode = i, h_pos = length (data fs i), h_closed = False \<rparr>,
               inode := Some i, offset := length (data fs i) \<rparr>"
    using assms by (simp add: open_tailer_def)
  have "read fs self = read_loop fs self []"
    using assms by (simp add: read_def)
  also have "\<dots> = read_loop fs ?opened []"
    using assms by (subst read_loop.simps) simp
  also have "\<dots> = ([], ?opened, None)"
    unfolding opened using assms by (subst read_loop.simps) simp
  finally show ?thesis
    by (simp only: opened)
qed

text \<open>
  Claim C2 fails on the code. The tailer that \<open>LogWatcher\<close> builds stands at the end of
  \<open>/tmp/x.log\<close> (inode 1); after \<open>mv x.log x.log.1; touch x.log; echo hello >> x.log\<close> the
  next \<open>read\<close> sees the new inode, closes and reopens, but \<open>open\<close> seeks to the end of the
  new file again: the poll yields no line and no event, and the tailer stands behind
  \<open>hello\<close>. A tailer built with \<open>start_at_end = False\<close> does yield \<open>hello\<close>.
\<close>

theorem rotation_reopens_at_end:
  "read fs_after (tailer_at_eof True)
     = ([], \<lparr> path = ''/tmp/x.log'', start_at_end = True,
               fd = Some \<lparr> h_inode = 2, h_pos = 6, h_closed = False \<rparr>,
               inode = Some 2, offset = 6 \<rparr>, None)
   \<and> poll_events 0 ''/tmp/x.log'' (fst (read fs_after (tailer_at_eof True))) = []
   \<and> fst (read fs_after (tailer_at_eof False)) = [''hello'']"
  by code_simp

section \<open>The watcher\<close>

lemma add_path_present: "p \<in> fst ` set tailers \<Longrightarrow> add_path p tailers = tailers"
  by (simp add: add_path_def)

lemma add_path_registers: "p \<in> fst ` set (add_path p tailers)"
  by (auto simp: add_path_def)

lemma add_path_distinct: "distinct (map fst tailers) \<Longrightarrow> distinct (map fst (add_path p tailers))"
  by (auto simp: add_path_def)

lemma distinct_count_one:
  "distinct (map fst xs) \<Longrightarrow> p \<in> fst ` set xs \<Longrightarrow> length (filter (\<lambda>entry. fst entry = p) xs) = 1"
proof (induction xs)
  case Nil
  then show ?case by simp
next
  case (Cons x xs)
  show ?case
  proof (cases "fst x = p")
    case True
    with Cons.prems have "p \<notin> fst ` set xs" by auto
    then have "filter (\<lambda>entry. fst entry = p) xs = []"
      by (auto simp: filter_empty_conv)
    with True show ?thesis by simp
  next
    case False
    with Cons show ?thesis by auto
  qed
qed

text \<open>
  Claim C8. \<open>add_path\<close> is idempotent: on every watcher (a dictionary, so no path occurs
  twice) a second \<open>add_path(p)\<close> changes nothing, exactly one tailer is registered for \<open>p\<close>
  afterwards, it is the tailer that the first call left, and a tailer that is already
  registered for \<open>p\<close>, in whatever state, is neither replaced nor reset.
\<close>

theorem add_path_idempotent:
  assumes "distinct (map fst tailers)"
  shows "add_path p (add_path p tailers) = add_path p tailers
    \<and> length (filter (\<lambda>entry. fst entry = p) (add_path p (add_path p tailers))) = 1
    \<and> map_of (add_path p (add_path p tailers)) p = map_of (add_path p tailers) p
    \<and> (p \<in> fst ` set tailers \<longrightarrow> add_path p tailers = tailers)"
proof -
  have idem: "add_path p (add_path p tailers) = add_path p tailers"
    using add_path_registers [of p tailers] by (rule add_path_present)
  have "length (filter (\<lambda>entry. fst entry = p) (add_path p tailers)) = 1"
    using add_path_distinct [OF assms] add_path_registers by (rule distinct_count_one)
  with idem show ?thesis
    by (simp add: add_path_present)
qed

text \<open>Claim C8, witness: a watcher whose tailer of \<open>/tmp/x.log\<close> has been opened and stands
  at offset 9.\<close>

theorem add_path_idempotent_witness:
  "distinct (map fst [(''/tmp/x.log'', tailer_at_eof True)])
   \<and> ''/tmp/x.log'' \<in> fst ` set [(''/tmp/x.log'', tailer_at_eof True)]
   \<and> add_path ''/tmp/x.log'' (add_path ''/tmp/x.log'' [(''/tmp/x.log'', tailer_at_eof True)])
       = [(''/tmp/x.log'', tailer_at_eof True)]
   \<and> length (filter (\<lambda>entry. fst entry = ''/tmp/x.log'')
         (add_path ''/tmp/x.log'' (add_path ''/tmp/x.log'' [(''/tmp/x.log'', tailer_at_eof True)]))) = 1"
proof -
  have d: "distinct (map fst [(''/tmp/x.log'', tailer_at_eof True)])"
    by simp
  have m: "''/tmp/x.log'' \<in> fst ` set [(''/tmp/x.log'', tailer_at_eof True)]"
    by simp
  from add_path_idempotent [OF d, of "''/tmp/x.log''"] m
  have "add_path ''/tmp/x.log'' [(''/tmp/x.log'', tailer_at_eof True)]
        = [(''/tmp/x.log'', tailer_at_eof True)]"
    by blast
  with add_path_idempotent [OF d, of "''/tmp/x.log''"] d m show ?thesis
    by simp
qed

section \<open>Parser selection\<close>

lemma starts_with_iff: "starts_with sub s \<longleftrightarrow> (\<exists>b. s = sub @ b)"
  by (induction sub s rule: starts_with.induct) auto

lemma contains_iff: "contains sub s \<longleftrightarrow> (\<exists>a b. s = a @ sub @ b)"
proof (induction s)
  case Nil
  then show ?case by auto
next
  case (Cons c cs)
  show ?case
  proof
    assume "contains sub (c # cs)"
    then consider "starts_with sub (c # cs)" | "contains sub cs" by auto
    then show "\<exists>a b. c # cs = a @ sub @ b"
    proof cases
      case 1
      then obtain b where "c # cs = sub @ b" by (auto simp: starts_with_iff)
      then have "c # cs = [] @ sub @ b" by simp
      then show ?thesis by blast
    next
      case 2
      with Cons obtain a b where "cs = a @ sub @ b" by auto
      then have "c # cs = (c # a) @ sub @ b" by simp
      then show ?thesis by blast
    qed
  next
    assume "\<exists>a b. c # cs = a @ sub @ b"
    then obtain a b where ab: "c # cs = a @ sub @ b" by blast
    show "contains sub (c # cs)"
    proof (cases a)
      case Nil
      with ab have "starts_with sub (c # cs)" by (auto simp: starts_with_iff)
      then show ?thesis by simp
    next
      case (Cons a0 as)
      with ab have "cs = as @ sub @ b" by simp
      with Cons.IH have "contains sub cs" by blast
      then show ?thesis by simp
    qed
  qed
qed

text \<open>
  Claim C7. The parser is a function of the path alone and is always found: \<open>nginx\<close> when
  the path contains \<open>nginx\<close>; otherwise \<open>ssh\<close> when it contains \<open>auth.log\<close> or \<open>secure\<close>;
  otherwise \<open>generic\<close>.
\<close>

theorem get_parser_selection:
  "get_parser parsers p =
     Inr (if (\<exists>a b. p = a @ ''nginx'' @ b) then NginxParser
          else if (\<exists>a b. p = a @ ''auth.log'' @ b) \<or> (\<exists>a b. p = a @ ''secure'' @ b) then SSHParser
          else GenericParser)"
  unfolding contains_iff [symmetric]
  by (simp add: get_parser_def subscript_def parsers_def)

section \<open>The threat store\<close>

lemma order_desc_sorted:
  "sorted_wrt (\<lambda>a b. created_at b \<le> created_at a) (order_by_created_at_desc rows)"
proof -
  have "sorted (map created_at (sort_key created_at rows))"
    by (rule sorted_sort_key)
  then have "sorted_wrt (\<lambda>a b. created_at a \<le> created_at b) (sort_key created_at rows)"
    by (simp add: sorted_map)
  then show ?thesis
    by (simp add: order_by_created_at_desc_def sorted_wrt_rev)
qed

lemma sql_limit_sorted: "sorted_wrt P xs \<Longrightarrow> sorted_wrt P (sql_limit n xs)"
  by (simp add: sql_limit_def sorted_wrt_take)

lemma sql_limit_length: "0 \<le> n \<Longrightarrow> int (length (sql_limit n xs)) \<le> n"
  by (simp add: sql_limit_def)

lemma sql_limit_set: "set (sql_limit n xs) \<subseteq> set xs"
  by (auto simp: sql_limit_def dest: in_set_takeD)

text \<open>
  Claim C4, as stated, fails for a negative \<open>n\<close>: \<open>get_threats(-1)\<close> on a table of three
  rows returns all three.
\<close>

theorem get_threats_negative_limit_counterexample:
  "get_threats table (- 1)
     = Inr [stored_threat ''THR-000000000003'' ''2026-01-03T00:00:00'',
            stored_threat ''THR-000000000002'' ''2026-01-02T00:00:00'',
            stored_threat ''THR-000000000001'' ''2026-01-01T00:00:00'']
   \<and> \<not> int (length [stored_threat ''THR-000000000003'' ''2026-01-03T00:00:00'',
            stored_threat ''THR-000000000002'' ''2026-01-02T00:00:00'',
            stored_threat ''THR-000000000001'' ''2026-01-01T00:00:00'']) \<le> - 1"
  by code_simp

text \<open>
  Claim C4, amended. For every \<open>n\<close> in the 64-bit range \<open>get_threats(n)\<close> returns a list; the
  list it returns consists of rows of the table, its \<open>created_at\<close> does not increase from
  the first element to the last, and for \<open>n \<ge> 0\<close> its length is at most \<open>n\<close>.
\<close>

theorem get_threats_bounded_sorted:
  "(- (2 ^ 63) \<le> n \<and> n < 2 ^ 63 \<longrightarrow> (\<exists>result. get_threats rows n = Inr result))
   \<and> (\<forall>result. get_threats rows n = Inr result \<longrightarrow>
         (0 \<le> n \<longrightarrow> int (length result) \<le> n)
         \<and> non_increasing result
         \<and> set result \<subseteq> set rows)"
proof (intro conjI allI impI)
  assume "- (2 ^ 63) \<le> n \<and> n < 2 ^ 63"
  then show "\<exists>result. get_threats rows n = Inr result"
    by (simp add: get_threats_def)
next
  fix result
  assume r: "get_threats rows n = Inr result"
  then have eq: "result = sql_limit n (order_by_created_at_desc rows)"
    by (simp add: get_threats_def split: if_splits)
  show "non_increasing result"
    unfolding eq non_increasing_def by (rule sql_limit_sorted) (rule order_desc_sorted)
  show "set result \<subseteq> set rows"
    using sql_limit_set [of n "order_by_created_at_desc rows"]
    by (simp add: eq order_by_created_at_desc_def)
  assume "0 \<le> n"
  then show "int (length result) \<le> n"
    unfolding eq by (rule sql_limit_length)
qed

text \<open>Claim C4 amended, witness: \<open>get_threats(2)\<close> on the table of three rows.\<close>

theorem get_threats_bounded_sorted_witness:
  "- (2 ^ 63) \<le> (2::int) \<and> (2::int) < 2 ^ 63 \<and> (0::int) \<le> 2
   \<and> (\<exists>result. get_threats table 2 = Inr result \<and> int (length result) \<le> 2
         \<and> non_increasing result \<and> set result \<subseteq> set table)"
proof -
  have "- (2 ^ 63) \<le> (2::int) \<and> (2::int) < 2 ^ 63" by simp
  with get_threats_bounded_sorted [of 2 table] show ?thesis by auto
qed

section \<open>The IPC server\<close>

lemma method_in_iff: "method_in v hs \<longleftrightarrow> v \<in> JStr ` dom hs"
  by (cases v) auto

lemma unhashable_iff: "unhashable v \<longleftrightarrow> \<not> json_scalar v"
  by (cases v) (simp_all add: json_scalar_def)

lemma sample_handlers_dom: "dom sample_handlers = {''status'', ''threats''}"
  by (auto simp: sample_handlers_def)

text \<open>
  Claim C5, as stated, fails: a request whose \<open>method\<close> is an object has a method that is
  not in the handler table, and the membership test raises \<open>TypeError\<close>; no response is
  returned.
\<close>

theorem unknown_method_unhashable_counterexample:
  "req_get object_method_request ''method'' JNull = JObj []
   \<and> JObj [] \<notin> JStr ` dom sample_handlers
   \<and> process_request sample_handlers object_method_request = Inl TypeError"
  by (auto simp: process_request_def req_get_def object_method_request_def)

text \<open>
  Claim C5, amended. A request whose \<open>method\<close> is absent or is \<open>null\<close>, a boolean, a number
  or a string, and is not in the handler table, gets the error response with code
  \<open>-32601\<close>, message \<open>Method not found\<close> and the \<open>id\<close> of the request.
\<close>

theorem unknown_method_error:
  assumes "json_scalar (req_get request ''method'' JNull)"
    and "req_get request ''method'' JNull \<notin> JStr ` dom hs"
  shows "process_request hs request
         = Inr (JObj [(''jsonrpc'', JStr ''2.0''),
                      (''error'', JObj [(''code'', JInt (- 32601)),
                                        (''message'', JStr ''Method not found'')]),
                      (''id'', req_get request ''id'' JNull)])"
  using assms by (simp add: process_request_def error_response_def method_in_iff unhashable_iff)

text \<open>Claim C5 amended, witness: the request with method \<open>nope\<close> and id \<open>a\<close>.\<close>

theorem unknown_method_error_witness:
  "json_scalar (req_get nope_request ''method'' JNull)
   \<and> req_get nope_request ''method'' JNull \<notin> JStr ` dom sample_handlers
   \<and> process_request sample_handlers nope_request
       = Inr (JObj [(''jsonrpc'', JStr ''2.0''),
                    (''error'', JObj [(''code'', JInt (- 32601)),
                                      (''message'', JStr ''Method not found'')]),
                    (''id'', JStr ''a'')])"
proof -
  have a: "json_scalar (req_get nope_request ''method'' JNull)"
    by (simp add: req_get_def nope_request_def json_scalar_def)
  have b: "req_get nope_request ''method'' JNull \<notin> JStr ` dom sample_handlers"
    by (simp add: req_get_def nope_request_def sample_handlers_dom)
  have c: "req_get nope_request ''id'' JNull = JStr ''a''"
    by (simp add: req_get_def nope_request_def)
  from a b unknown_method_error [OF a b] c show ?thesis by simp
qed

text \<open>
  Claim C6. When the handler of the request raises an exception, \<open>process_request\<close> returns
  the error response with code \<open>-32000\<close>, the message of the exception and the \<open>id\<close> of the
  request; the exception does not leave the method.
\<close>

theorem handler_exception_error:
  assumes "req_get request ''method'' JNull = JStr m"
    and "hs m = Some handler"
    and "handler (req_get request ''params'' (JObj [])) = Raised message"
  shows "process_request hs request
         = Inr (JObj [(''jsonrpc'', JStr ''2.0''),
                      (''error'', JObj [(''code'', JInt (- 32000)), (''message'', JStr message)]),
                      (''id'', req_get request ''id'' JNull)])"
  using assms by (simp add: process_request_def error_response_def)

text \<open>Claim C6, witness: the \<open>threats\<close> handler raises on a request with id 7.\<close>

theorem handler_exception_error_witness:
  "req_get threats_request ''method'' JNull = JStr ''threats''
   \<and> (\<exists>handler. sample_handlers ''threats'' = Some handler
         \<and> handler (req_get threats_request ''params'' (JObj [])) = Raised ''database is locked'')
   \<and> process_request sample_handlers threats_request
       = Inr (JObj [(''jsonrpc'', JStr ''2.0''),
                    (''error'', JObj [(''code'', JInt (- 32000)),
                                      (''message'', JStr ''database is locked'')]),
                    (''id'', JInt 7)])"
proof -
  have a: "req_get threats_request ''method'' JNull = JStr ''threats''"
    by (simp add: req_get_def threats_request_def)
  have b: "sample_handlers ''threats'' = Some (\<lambda>params. Raised ''database is locked'')"
    by (simp add: sample_handlers_def)
  have d: "req_get threats_request ''id'' JNull = JInt 7"
    by (simp add: req_get_def threats_request_def)
  from a b d
    handler_exception_error [where request = threats_request and hs = sample_handlers
      and m = "''threats''" and handler = "\<lambda>params. Raised ''database is locked''"
      and message = "''database is locked''"]
  show ?thesis by simp
qed

text \<open>
  Claim C10, as stated, fails: for a request whose \<open>method\<close> is a list the membership
  test raises \<open>TypeError\<close>, which leaves \<open>process_request\<close>.
\<close>

theorem process_request_total_counterexample:
  "process_request sample_handlers [''method'' \<mapsto> JArr [], ''id'' \<mapsto> JInt 1] = Inl TypeError"
  by (simp add: process_request_def req_get_def)

text \<open>
  Claim C10, amended. For every request dictionary whose \<open>method\<close> is absent or is
  \<open>null\<close>, a boolean, a number or a string, also when \<open>params\<close> or \<open>id\<close> are missing,
  \<open>process_request\<close> returns a response with \<open>"jsonrpc": "2.0"\<close>, the \<open>id\<close> of the request
  (\<open>null\<close> when absent) and exactly one of \<open>result\<close> and \<open>error\<close>; without a \<open>method\<close> key the
  response is the \<open>-32601\<close> error.
\<close>

theorem process_request_total:
  assumes "\<not> unhashable (req_get request ''method'' JNull)"
  shows "(\<exists>response. process_request hs request = Inr response
            \<and> response_ok (req_get request ''id'' JNull) response)
         \<and> (request ''method'' = None \<longrightarrow>
               process_request hs request
               = Inr (error_response (- 32601) ''Method not found'' (req_get request ''id'' JNull)))"
proof (cases "method_in (req_get request ''method'' JNull) hs")
  case False
  with assms show ?thesis
    by (simp add: process_request_def error_response_def response_ok_def)
next
  case True
  then obtain m handler where m: "req_get request ''method'' JNull = JStr m" and h: "hs m = Some handler"
    by (cases "req_get request ''method'' JNull") auto
  then have "request ''method'' \<noteq> None"
    by (auto simp: req_get_def split: option.splits)
  with m h True show ?thesis
    by (cases "handler (req_get request ''params'' (JObj []))")
       (simp_all add: process_request_def error_response_def result_response_def response_ok_def)
qed

text \<open>Claim C10 amended, witness: a request without \<open>method\<close> and without \<open>id\<close>.\<close>

theorem process_request_total_witness:
  "\<not> unhashable (req_get [''params'' \<mapsto> JObj []] ''method'' JNull)
   \<and> ([''params'' \<mapsto> JObj []] :: string \<rightharpoonup> json) ''method'' = None
   \<and> process_request sample_handlers [''params'' \<mapsto> JObj []]
       = Inr (JObj [(''jsonrpc'', JStr ''2.0''),
                    (''error'', JObj [(''code'', JInt (- 32601)),
                                      (''message'', JStr ''Method not found'')]),
                    (''id'', JNull)])
   \<and> response_ok JNull (JObj [(''jsonrpc'', JStr ''2.0''),
                    (''error'', JObj [(''code'', JInt (- 32601)),
                                      (''message'', JStr ''Method not found'')]),
                    (''id'', JNull)])"
proof -
  let ?r = "[''params'' \<mapsto> JObj []] :: string \<rightharpoonup> json"
  have a: "\<not> unhashable (req_get ?r ''method'' JNull)"
    by (simp add: req_get_def)
  have b: "?r ''method'' = None"
    by simp
  have c: "req_get ?r ''id'' JNull = JNull"
    by (simp add: req_get_def)
  from process_request_total [OF a, of sample_handlers] b c
  have "process_request sample_handlers ?r
       = Inr (error_response (- 32601) ''Method not found'' JNull)
     \<and> response_ok JNull (error_response (- 32601) ''Method not found'' JNull)"
    by auto
  with a b show ?thesis
    by (simp add: error_response_def)
qed

end
